theory Spec2Isabelle
  imports Complex_Main "HOL-Library.Char_ord" "HOL-Library.List_Lexorder"
    "HOL-Library.Product_Lexorder"
begin

section \<open>Data model\<close>

text \<open>
  The three tables of \<^verbatim>\<open>load_data\<close> are lists of rows in file order. Only the columns
  the program reads are kept; the record fields carry a prefix because the tables share
  column names (\<^verbatim>\<open>playerid\<close>, \<^verbatim>\<open>yearid\<close>, \<^verbatim>\<open>teamid\<close>). A missing cell (pandas NaN) of a
  text column is \<open>None\<close>.
\<close>

record people_row =
  p_playerid :: string
  p_namefirst :: "string option"
  p_namelast :: "string option"
  p_finalgame :: "string option"

record batting_row =
  b_playerid :: string
  b_yearid :: int
  b_teamid :: string

text \<open>
  The value of a \<^verbatim>\<open>franchid\<close> cell: a franchise code, or the float NaN that a left merge
  writes where the right table has no matching row (and that \<^verbatim>\<open>read_csv\<close> writes for an
  empty cell).
\<close>

datatype franch = NaN | Code string

record teams_row =
  t_teamid :: string
  t_yearid :: int
  t_franchid :: franch

text \<open>A row of \<^verbatim>\<open>merged\<close>: the batting row and the \<^verbatim>\<open>franchid\<close> column joined to it.\<close>

type_synonym merged_row = "batting_row \<times> franch"

text \<open>
  A block is the tuple \<^verbatim>\<open>(start_year, end_year, team)\<close>. The first component is whatever
  the variable \<^verbatim>\<open>start_year\<close> holds when the tuple is built, and that variable starts as
  \<^verbatim>\<open>None\<close>.
\<close>

type_synonym block = "int option \<times> int \<times> franch"

datatype error = UnboundLocalError | KeyError

section \<open>The block extractor\<close>

text \<open>
  \<^verbatim>\<open>df.merge(teams_df[['teamid', 'yearid', 'franchid']], on=['teamid', 'yearid'], how='left')\<close>:
  every left row is kept, in order; it is paired with the \<^verbatim>\<open>franchid\<close> of each right row
  with the same key, in the right table's order, or with NaN when there is none.
\<close>

definition merge_left :: "batting_row list \<Rightarrow> teams_row list \<Rightarrow> merged_row list" where
  "merge_left bs ts =
     concat (map (\<lambda>b.
       let ms = filter (\<lambda>t. t_teamid t = b_teamid b \<and> t_yearid t = b_yearid b) ts
       in if ms = [] then [(b, NaN)] else map (\<lambda>t. (b, t_franchid t)) ms) bs)"

text \<open>
  Python's \<^verbatim>\<open>team != last_team\<close>, where \<^verbatim>\<open>team\<close> is a cell value and \<^verbatim>\<open>last_team\<close> is
  \<^verbatim>\<open>None\<close> or an earlier cell value. A string differs from \<^verbatim>\<open>None\<close>; NaN differs from
  everything, itself included.
\<close>

fun py_ne :: "franch \<Rightarrow> franch option \<Rightarrow> bool" where
  "py_ne t None = True"
| "py_ne NaN (Some l) = True"
| "py_ne (Code a) (Some NaN) = True"
| "py_ne (Code a) (Some (Code b)) = (a \<noteq> b)"

text \<open>The local variables of the loop; \<^verbatim>\<open>year\<close> is unbound (\<open>None\<close>) before the first row.\<close>

record scan_state =
  blocks :: "block list"
  last_team :: "franch option"
  start_year :: "int option"
  year :: "int option"

definition init_state :: scan_state where
  "init_state = \<lparr>blocks = [], last_team = None, start_year = None, year = None\<rparr>"

text \<open>One iteration of \<^verbatim>\<open>for _, row in merged.iterrows()\<close>.\<close>

definition step :: "scan_state \<Rightarrow> merged_row \<Rightarrow> scan_state" where
  "step st row =
     (let y = b_yearid (fst row); team = snd row; st1 = st\<lparr>year := Some y\<rparr>
      in if py_ne team (last_team st1)
         then (let st2 = (case last_team st1 of
                            None \<Rightarrow> st1
                          | Some lt \<Rightarrow> st1\<lparr>blocks := blocks st1 @ [(start_year st1, y - 1, lt)]\<rparr>)
               in st2\<lparr>last_team := Some team, start_year := Some y\<rparr>)
         else st1)"

text \<open>
  The code after the loop. Reading \<^verbatim>\<open>year\<close> while it is unbound would raise; the branch is
  kept so that its unreachability is a theorem.
\<close>

definition finish :: "scan_state \<Rightarrow> error + block list" where
  "finish st =
     (case last_team st of
        None \<Rightarrow> Inr (blocks st)
      | Some lt \<Rightarrow>
          (case year st of
             None \<Rightarrow> Inl UnboundLocalError
           | Some y \<Rightarrow> Inr (blocks st @ [(start_year st, y, lt)])))"

definition scan :: "merged_row list \<Rightarrow> error + block list" where
  "scan rows = finish (foldl step init_state rows)"

text \<open>
  \<^verbatim>\<open>sort_values('yearid')\<close>. The rows of one year are kept here in their order before
  the sort; pandas does not promise an order among them. The general theorems on the
  blocks below use only that the sorted list is ascending in the year and has the same
  rows, so they hold for any order among the rows of one year.
\<close>

definition sort_values_yearid :: "merged_row list \<Rightarrow> merged_row list" where
  "sort_values_yearid rows = sort_key (\<lambda>r. b_yearid (fst r)) rows"

definition player_merged :: "string \<Rightarrow> batting_row list \<Rightarrow> teams_row list \<Rightarrow> merged_row list" where
  "player_merged player_id batting_df teams_df =
     sort_values_yearid (merge_left (filter (\<lambda>b. b_playerid b = player_id) batting_df) teams_df)"

definition name_matches :: "string \<Rightarrow> string \<Rightarrow> people_row \<Rightarrow> bool" where
  "name_matches player_first player_last p \<longleftrightarrow>
     p_namefirst p = Some player_first \<and> p_namelast p = Some player_last"

definition get_player_team_blocks ::
  "string \<Rightarrow> string \<Rightarrow> people_row list \<Rightarrow> batting_row list \<Rightarrow> teams_row list
     \<Rightarrow> error + block list" where
  "get_player_team_blocks player_first player_last people_df batting_df teams_df =
     (let player = filter (name_matches player_first player_last) people_df
      in if player = [] then Inr []
         else (let player_id = p_playerid (hd player)
               in scan (player_merged player_id batting_df teams_df)))"

section \<open>Notions used to state the shape of the result\<close>

abbreviation yr :: "merged_row \<Rightarrow> int" where
  "yr r \<equiv> b_yearid (fst r)"

text \<open>The years a block spans, both ends included; none when the end is before the start.\<close>

definition block_years :: "block \<Rightarrow> int set" where
  "block_years b = (case fst b of None \<Rightarrow> {} | Some s \<Rightarrow> {s .. fst (snd b)})"

text \<open>
  \<open>chain m bs n\<close>: the blocks \<open>bs\<close> tile the years from \<open>m\<close> up to \<open>n - 1\<close>. The first starts
  at \<open>m\<close>, each next one starts the year after its predecessor ends, the last ends at
  \<open>n - 1\<close>. A block may end the year before it starts (two rows of one year with
  different teams).
\<close>

fun chain :: "int \<Rightarrow> block list \<Rightarrow> int \<Rightarrow> bool" where
  "chain m [] n \<longleftrightarrow> m = n"
| "chain m (b # bs) n \<longleftrightarrow>
     fst b = Some m \<and> m \<le> fst (snd b) + 1 \<and> chain (fst (snd b) + 1) bs n"

text \<open>
  The loop invariant once a row has been read: a block is open since year \<open>s\<close>, the row
  read last is of year \<open>y\<close>, and the closed blocks tile the years from \<open>m\<close> to \<open>s - 1\<close>.
\<close>

definition scan_inv :: "int \<Rightarrow> int \<Rightarrow> scan_state \<Rightarrow> bool" where
  "scan_inv m y st \<longleftrightarrow>
     (\<exists>lt s. last_team st = Some lt \<and> start_year st = Some s \<and> year st = Some y \<and> s \<le> y
        \<and> chain m (blocks st) s)"

section \<open>Rows for concrete inputs\<close>

text \<open>A player with no recorded final game, a batting row and a season row with a code.\<close>

definition person :: "string \<Rightarrow> string \<Rightarrow> string \<Rightarrow> people_row" where
  "person pid nf nl =
     \<lparr>p_playerid = pid, p_namefirst = Some nf, p_namelast = Some nl, p_finalgame = None\<rparr>"

definition bat :: "string \<Rightarrow> int \<Rightarrow> string \<Rightarrow> batting_row" where
  "bat pid y t = \<lparr>b_playerid = pid, b_yearid = y, b_teamid = t\<rparr>"

definition season :: "string \<Rightarrow> int \<Rightarrow> string \<Rightarrow> teams_row" where
  "season t y f = \<lparr>t_teamid = t, t_yearid = y, t_franchid = Code f\<rparr>"

section \<open>The franchise tables and the resolver\<close>

text \<open>
  The dict literals, as lists of (key, value) in the order written. No key is written
  twice, so a lookup is \<open>map_of\<close> and the iteration order of the keys is the list order.
\<close>

definition TEAM_COLORS :: "(string \<times> string) list" where
  "TEAM_COLORS =
    [(''ARI'', ''#A71930''), (''ATL'', ''#CE1141''), (''BAL'', ''#DF4601''), (''BOS'', ''#BD3039''),
     (''CHC'', ''#0E3386''), (''CHW'', ''#27251F''), (''CIN'', ''#C6011F''), (''CLE'', ''#0C2340''),
     (''COL'', ''#33006F''), (''DET'', ''#0C2340''), (''HOU'', ''#EB6E1F''), (''KCR'', ''#004687''),
     (''LAA'', ''#BA0021''), (''LAD'', ''#005A9C''), (''MIA'', ''#00A3E0''), (''MIL'', ''#12284B''),
     (''MIN'', ''#002B5C''), (''NYM'', ''#002D72''), (''NYY'', ''#003087''), (''OAK'', ''#003831''),
     (''PHI'', ''#E81828''), (''PIT'', ''#FDB827''), (''SDP'', ''#2F241D''), (''SEA'', ''#0C2C56''),
     (''SFG'', ''#FD5A1E''), (''STL'', ''#C41E3A''), (''TBR'', ''#092C5C''), (''TEX'', ''#003278''),
     (''TOR'', ''#134A8E''), (''WSN'', ''#AB0003'')]"

definition OFFICIAL_TEAM_NAMES :: "(string \<times> string) list" where
  "OFFICIAL_TEAM_NAMES =
    [(''Arizona Diamondbacks'', ''ARI''),
     (''Atlanta Braves'', ''ATL''),
     (''Baltimore Orioles'', ''BAL''),
     (''Boston Red Sox'', ''BOS''),
     (''Chicago Cubs'', ''CHC''),
     (''Chicago White Sox'', ''CHW''),
     (''Cincinnati Reds'', ''CIN''),
     (''Cleveland Guardians'', ''CLE''),
     (''Colorado Rockies'', ''COL''),
     (''Detroit Tigers'', ''DET''),
     (''Houston Astros'', ''HOU''),
     (''Kansas City Royals'', ''KCR''),
     (''Los Angeles Angels'', ''ANA''),
     (''Los Angeles Dodgers'', ''LAD''),
     (''Miami Marlins'', ''FLA''),
     (''Milwaukee Brewers'', ''MIL''),
     (''Minnesota Twins'', ''MIN''),
     (''New York Mets'', ''NYM''),
     (''New York Yankees'', ''NYY''),
     (''Oakland Athletics'', ''OAK''),
     (''Philadelphia Phillies'', ''PHI''),
     (''Pittsburgh Pirates'', ''PIT''),
     (''San Diego Padres'', ''SDP''),
     (''Seattle Mariners'', ''SEA''),
     (''San Francisco Giants'', ''SFG''),
     (''St. Louis Cardinals'', ''STL''),
     (''Tampa Bay Rays'', ''TBR''),
     (''Texas Rangers'', ''TEX''),
     (''Toronto Blue Jays'', ''TOR''),
     (''Washington Nationals'', ''WSN'')]"

text \<open>
  \<^verbatim>\<open>TEAM_NAMES = {v: k for k, v in OFFICIAL_TEAM_NAMES.items()}\<close>: the entries are written
  into an empty dict one after the other, a later one replacing an earlier one of the
  same key.
\<close>

definition TEAM_NAMES :: "string \<rightharpoonup> string" where
  "TEAM_NAMES = foldl (\<lambda>m (k, v). m(v \<mapsto> k)) Map.empty OFFICIAL_TEAM_NAMES"

text \<open>
  The two lookups of \<^verbatim>\<open>plot_multiple_timelines_plotly\<close> for the team of a block:
  \<^verbatim>\<open>TEAM_COLORS.get(team, "#888888")\<close> and \<^verbatim>\<open>TEAM_NAMES.get(team, "Unknown Team")\<close>. NaN is
  no key of either dict.
\<close>

definition color_of :: "franch \<Rightarrow> string" where
  "color_of team =
     (case team of
        NaN \<Rightarrow> ''#888888''
      | Code c \<Rightarrow> (case map_of TEAM_COLORS c of None \<Rightarrow> ''#888888'' | Some col \<Rightarrow> col))"

definition team_full_name :: "franch \<Rightarrow> string" where
  "team_full_name team =
     (case team of
        NaN \<Rightarrow> ''Unknown Team''
      | Code c \<Rightarrow> (case TEAM_NAMES c of None \<Rightarrow> ''Unknown Team'' | Some n \<Rightarrow> n))"

text \<open>
  Modelled from the spec: \<^verbatim>\<open>process.extractOne\<close> belongs to the rapidfuzz library, which
  is not among the sources. Following section 4.1, it scores the query against every
  choice and returns the choice with the highest score, its score and its index, the
  first such choice in iteration order when several share the highest score; without a
  choice there is no result. The scorer (\<^verbatim>\<open>fuzz.WRatio\<close>, a number from 0 to 100) is a
  parameter throughout.
\<close>

definition pick_better ::
  "(string \<Rightarrow> real) \<Rightarrow> (string \<times> real \<times> nat) option \<Rightarrow> nat \<times> string
     \<Rightarrow> (string \<times> real \<times> nat) option" where
  "pick_better score_of result ic =
     (case result of
        None \<Rightarrow> Some (snd ic, score_of (snd ic), fst ic)
      | Some (c, s, k) \<Rightarrow>
          if score_of (snd ic) > s then Some (snd ic, score_of (snd ic), fst ic) else result)"

definition extractOne ::
  "(string \<Rightarrow> string \<Rightarrow> real) \<Rightarrow> string \<Rightarrow> string list \<Rightarrow> (string \<times> real \<times> nat) option" where
  "extractOne scorer query choices = foldl (pick_better (scorer query)) None (enumerate 0 choices)"

text \<open>
  \<^verbatim>\<open>get_franchise_code_from_input\<close>. The pair \<^verbatim>\<open>(None, None)\<close> it returns when there is no
  acceptable match is \<open>None\<close> here; the subscript \<^verbatim>\<open>OFFICIAL_TEAM_NAMES[match[0]]\<close> raises
  \<^verbatim>\<open>KeyError\<close> on a name that is no key.
\<close>

definition get_franchise_code_from_input ::
  "(string \<Rightarrow> string \<Rightarrow> real) \<Rightarrow> string \<Rightarrow> error + (string \<times> string) option" where
  "get_franchise_code_from_input scorer user_input =
     (case extractOne scorer user_input (map fst OFFICIAL_TEAM_NAMES) of
        None \<Rightarrow> Inr None
      | Some (name, score, idx) \<Rightarrow>
          if score \<ge> 70
          then (case map_of OFFICIAL_TEAM_NAMES name of
                  None \<Rightarrow> Inl KeyError
                | Some code \<Rightarrow> Inr (Some (code, name)))
          else Inr None)"

text \<open>The best score of a query over the canonical names, as the claims speak of it.\<close>

definition best_score :: "(string \<Rightarrow> string \<Rightarrow> real) \<Rightarrow> string \<Rightarrow> real" where
  "best_score scorer query = Max (scorer query ` set (map fst OFFICIAL_TEAM_NAMES))"

section \<open>The roster filter of \<^verbatim>\<open>main\<close>\<close>

text \<open>
  \<^verbatim>\<open>pd.to_datetime(people['finalgame'], errors='coerce').dt.year\<close>: the year of the final
  game, missing when the cell is missing or does not parse as a date. The parser of the
  pandas library is a parameter: it gives the year of a text, or nothing.
\<close>

definition finalyear :: "(string \<Rightarrow> int option) \<Rightarrow> people_row \<Rightarrow> int option" where
  "finalyear to_year p = (case p_finalgame p of None \<Rightarrow> None | Some s \<Rightarrow> to_year s)"

definition active_players_df :: "(string \<Rightarrow> int option) \<Rightarrow> people_row list \<Rightarrow> people_row list" where
  "active_players_df to_year people = filter (\<lambda>p. finalyear to_year p = None) people"

definition active_batting ::
  "(string \<Rightarrow> int option) \<Rightarrow> people_row list \<Rightarrow> batting_row list \<Rightarrow> batting_row list" where
  "active_batting to_year people batting =
     filter (\<lambda>b. b_playerid b \<in> set (map p_playerid (active_players_df to_year people))) batting"

text \<open>
  \<^verbatim>\<open>groupby('playerid')['yearid'].max().reset_index()\<close>: one row per player id, in
  ascending order of the id, with the greatest year of the player's rows.
\<close>

definition latest_years :: "batting_row list \<Rightarrow> (string \<times> int) list" where
  "latest_years ab =
     map (\<lambda>pid. (pid, Max (set (map b_yearid (filter (\<lambda>b. b_playerid b = pid) ab)))))
         (sort (remdups (map b_playerid ab)))"

text \<open>
  \<^verbatim>\<open>merge(latest_years, on=['playerid', 'yearid'], how='inner')\<close>: a left row is kept once
  for each right row with its (player id, year).
\<close>

definition merge_inner :: "batting_row list \<Rightarrow> (string \<times> int) list \<Rightarrow> batting_row list" where
  "merge_inner bs ks =
     concat (map (\<lambda>b. map (\<lambda>k. b) (filter (\<lambda>k. k = (b_playerid b, b_yearid b)) ks)) bs)"

definition latest_batting ::
  "(string \<Rightarrow> int option) \<Rightarrow> people_row list \<Rightarrow> batting_row list \<Rightarrow> teams_row list
     \<Rightarrow> merged_row list" where
  "latest_batting to_year people batting teams =
     (let ab = active_batting to_year people batting
      in merge_left (merge_inner ab (latest_years ab)) teams)"

text \<open>
  \<^verbatim>\<open>Series.unique()\<close>: the distinct values in order of first appearance; NaN is one value.
\<close>

definition unique :: "'a list \<Rightarrow> 'a list" where
  "unique xs = rev (remdups (rev xs))"

definition row_key :: "merged_row \<Rightarrow> string \<times> int" where
  "row_key r = (b_playerid (fst r), b_yearid (fst r))"

text \<open>
  \<^verbatim>\<open>groupby(['playerid', 'yearid'])['franchid'].unique().reset_index()\<close>: one row per
  (player id, year) in ascending order, with the distinct \<^verbatim>\<open>franchid\<close> values of the group.
\<close>

definition teams_per_player_year :: "merged_row list \<Rightarrow> ((string \<times> int) \<times> franch list) list" where
  "teams_per_player_year lb =
     map (\<lambda>k. (k, unique (map snd (filter (\<lambda>r. row_key r = k) lb))))
         (sort (remdups (map row_key lb)))"

text \<open>Python's \<^verbatim>\<open>teams[0] == franchise_code\<close> of a cell value and a string.\<close>

fun py_eq :: "franch \<Rightarrow> string \<Rightarrow> bool" where
  "py_eq NaN c = False"
| "py_eq (Code a) c = (a = c)"

text \<open>
  \<^verbatim>\<open>lambda teams: len(teams) == 1 and teams[0] == franchise_code\<close>; the second operand is
  evaluated only when the first holds.
\<close>

definition only_this_team :: "string \<Rightarrow> franch list \<Rightarrow> bool" where
  "only_this_team franchise_code teams \<longleftrightarrow>
     (if length teams = 1 then py_eq (teams ! 0) franchise_code else False)"

definition only_team_players ::
  "(string \<Rightarrow> int option) \<Rightarrow> people_row list \<Rightarrow> batting_row list \<Rightarrow> teams_row list \<Rightarrow> string
     \<Rightarrow> string list" where
  "only_team_players to_year people batting teams franchise_code =
     map (\<lambda>g. fst (fst g))
         (filter (\<lambda>g. only_this_team franchise_code (snd g))
                 (teams_per_player_year (latest_batting to_year people batting teams)))"

text \<open>
  The notions of the claim on the roster filter, stated without the pipeline: a player is
  active when a people row of the id has no final game; the franchise values of the
  player's most recent season are the \<^verbatim>\<open>franchid\<close> values joined to the batting rows of the
  player whose year is the greatest year of the player's rows (none without a row).
\<close>

definition is_active :: "people_row list \<Rightarrow> string \<Rightarrow> bool" where
  "is_active people pid \<longleftrightarrow> (\<exists>p\<in>set people. p_playerid p = pid \<and> p_finalgame p = None)"

definition latest_season_codes :: "string \<Rightarrow> batting_row list \<Rightarrow> teams_row list \<Rightarrow> franch set" where
  "latest_season_codes pid batting teams =
     (let rows = filter (\<lambda>b. b_playerid b = pid) batting
      in if rows = [] then {}
         else snd ` set (merge_left
                 (filter (\<lambda>b. b_yearid b = Max (set (map b_yearid rows))) rows) teams))"

section \<open>The loop of the block extractor\<close>

lemma chain_snoc:
  "chain m bs s \<Longrightarrow> s \<le> e + 1 \<Longrightarrow> chain m (bs @ [(Some s, e, t)]) (e + 1)"
  by (induction bs arbitrary: m) auto

lemma chain_le: "chain m bs n \<Longrightarrow> m \<le> n"
proof (induction bs arbitrary: m)
  case Nil
  then show ?case by simp
next
  case (Cons b bs)
  from Cons.prems have "fst (snd b) + 1 \<le> n" by (intro Cons.IH) simp
  with Cons.prems show ?case by simp
qed

lemma chain_years: "chain m bs n \<Longrightarrow> \<Union> (block_years ` set bs) = {m ..< n}"
proof (induction bs arbitrary: m)
  case Nil
  then show ?case by simp
next
  case (Cons b bs)
  from Cons.prems have s: "fst b = Some m" and le: "m \<le> fst (snd b) + 1"
    and ch: "chain (fst (snd b) + 1) bs n" by auto
  have "block_years b = {m ..< fst (snd b) + 1}"
    using s by (auto simp: block_years_def)
  moreover have "fst (snd b) + 1 \<le> n" using ch by (rule chain_le)
  ultimately show ?case using Cons.IH [OF ch] le by auto
qed

lemma chain_starts: "chain m bs n \<Longrightarrow> \<exists>ss. map fst bs = map Some ss \<and> sorted ss \<and> (\<forall>s\<in>set ss. m \<le> s)"
proof (induction bs arbitrary: m)
  case Nil
  then show ?case by simp
next
  case (Cons b bs)
  from Cons.prems have s: "fst b = Some m" and le: "m \<le> fst (snd b) + 1"
    and ch: "chain (fst (snd b) + 1) bs n" by auto
  from Cons.IH [OF ch] obtain ss where ss: "map fst bs = map Some ss" "sorted ss"
    "\<forall>s\<in>set ss. fst (snd b) + 1 \<le> s" by blast
  have "map fst (b # bs) = map Some (m # ss)" using s ss by simp
  moreover have "sorted (m # ss)" using ss le by auto
  moreover have "\<forall>s\<in>set (m # ss). m \<le> s" using ss le by auto
  ultimately show ?case by blast
qed

lemma chain_disjoint:
  "chain m bs n \<Longrightarrow> i < j \<Longrightarrow> j < length bs \<Longrightarrow> block_years (bs ! i) \<inter> block_years (bs ! j) = {}"
proof (induction bs arbitrary: m i j)
  case Nil
  then show ?case by simp
next
  case (Cons b bs)
  from Cons.prems have s: "fst b = Some m" and le: "m \<le> fst (snd b) + 1"
    and ch: "chain (fst (snd b) + 1) bs n" by auto
  obtain j' where j: "j = Suc j'" using Cons.prems(2) by (cases j) auto
  show ?case
  proof (cases i)
    case 0
    have "bs ! j' \<in> set bs" using Cons.prems(3) j by simp
    then have "block_years (bs ! j') \<subseteq> {fst (snd b) + 1 ..< n}"
      using chain_years [OF ch] by blast
    moreover have "block_years b \<subseteq> {m .. fst (snd b)}" using s by (auto simp: block_years_def)
    ultimately have "\<And>x. x \<in> block_years b \<Longrightarrow> x \<in> block_years (bs ! j') \<Longrightarrow> False"
      by fastforce
    then show ?thesis using 0 j by auto
  next
    case (Suc i')
    then show ?thesis using Cons.IH [OF ch, of i' j'] Cons.prems j by simp
  qed
qed

lemma step_init: "scan_inv (yr row) (yr row) (step init_state row)"
  by (simp add: scan_inv_def step_def init_state_def Let_def)

lemma step_inv: "scan_inv m y st \<Longrightarrow> y \<le> yr row \<Longrightarrow> scan_inv m (yr row) (step st row)"
  unfolding scan_inv_def step_def Let_def
  by (auto intro!: chain_snoc [where e = "yr row - 1", simplified])

lemma foldl_inv:
  "scan_inv m y st \<Longrightarrow> sorted (y # map yr rows) \<Longrightarrow> scan_inv m (last (y # map yr rows)) (foldl step st rows)"
proof (induction rows arbitrary: st y)
  case Nil
  then show ?case by simp
next
  case (Cons r rows)
  have "scan_inv m (yr r) (step st r)" using Cons.prems by (intro step_inv) auto
  moreover have "sorted (yr r # map yr rows)" using Cons.prems(2) by simp
  ultimately have "scan_inv m (last (yr r # map yr rows)) (foldl step (step st r) rows)"
    by (rule Cons.IH)
  then show ?case by simp
qed

lemma finish_inv:
  assumes "scan_inv m y st"
  shows "\<exists>bs. finish st = Inr bs \<and> bs \<noteq> [] \<and> chain m bs (y + 1)"
proof -
  from assms obtain lt s where st: "last_team st = Some lt" "start_year st = Some s"
    "year st = Some y" "s \<le> y" "chain m (blocks st) s"
    unfolding scan_inv_def by blast
  have "chain m (blocks st @ [(Some s, y, lt)]) (y + 1)"
    using st(4,5) by (intro chain_snoc) simp_all
  then show ?thesis using st by (simp add: finish_def)
qed

lemma scan_chain:
  assumes "rows \<noteq> []" "sorted (map yr rows)"
  shows "\<exists>bs. scan rows = Inr bs \<and> bs \<noteq> [] \<and> chain (yr (hd rows)) bs (yr (last rows) + 1)"
proof -
  obtain r rs where rows: "rows = r # rs" using assms(1) by (cases rows) auto
  have "scan_inv (yr r) (last (yr r # map yr rs)) (foldl step (step init_state r) rs)"
    using assms(2) rows by (intro foldl_inv step_init) simp
  moreover have "last (yr r # map yr rs) = yr (last rows)"
    unfolding rows by (simp add: last_map)
  ultimately have "scan_inv (yr r) (yr (last rows)) (foldl step init_state rows)"
    unfolding rows by simp
  from finish_inv [OF this] show ?thesis
    unfolding scan_def by (simp add: rows)
qed

lemma scan_Nil: "scan [] = Inr []"
  by (simp add: scan_def finish_def init_state_def)

section \<open>The merge, the sort and the rows of one player\<close>

lemma merge_left_Nil: "merge_left [] ts = []"
  by (simp add: merge_left_def)

lemma merge_left_Cons:
  "merge_left (b # bs) ts =
     (let ms = filter (\<lambda>t. t_teamid t = b_teamid b \<and> t_yearid t = b_yearid b) ts
      in if ms = [] then [(b, NaN)] else map (\<lambda>t. (b, t_franchid t)) ms) @ merge_left bs ts"
  by (simp add: merge_left_def)

lemma fst_set_merge_left: "fst ` set (merge_left bs ts) = set bs"
proof (induction bs)
  case Nil
  then show ?case by (simp add: merge_left_Nil)
next
  case (Cons b bs)
  let ?ms = "filter (\<lambda>t. t_teamid t = b_teamid b \<and> t_yearid t = b_yearid b) ts"
  have "fst ` set (if ?ms = [] then [(b, NaN)] else map (\<lambda>t. (b, t_franchid t)) ?ms) = {b}"
    by (cases ?ms) (auto simp: image_iff)
  then show ?case using Cons.IH
    by (simp add: merge_left_Cons Let_def image_Un del: set_filter)
qed

lemma years_merge_left: "yr ` set (merge_left bs ts) = b_yearid ` set bs"
proof -
  have "yr ` set (merge_left bs ts) = b_yearid ` (fst ` set (merge_left bs ts))"
    by (simp add: image_image)
  then show ?thesis by (simp add: fst_set_merge_left)
qed

lemma merge_left_empty_iff: "merge_left bs ts = [] \<longleftrightarrow> bs = []"
  using fst_set_merge_left [of bs ts] by (cases "merge_left bs ts") auto

lemma set_sort_values: "set (sort_values_yearid rows) = set rows"
  by (simp add: sort_values_yearid_def)

lemma sorted_sort_values: "sorted (map yr (sort_values_yearid rows))"
  by (simp add: sort_values_yearid_def)

lemma sort_values_empty_iff: "sort_values_yearid rows = [] \<longleftrightarrow> rows = []"
  using set_sort_values [of rows] by (metis set_empty)

lemma sorted_hd_Min: "xs \<noteq> [] \<Longrightarrow> sorted xs \<Longrightarrow> hd xs = Min (set (xs :: int list))"
  by (cases xs) (auto intro!: Min_eqI [symmetric])

lemma sorted_last_Max:
  assumes "xs \<noteq> []" "sorted xs"
  shows "last xs = Max (set (xs :: int list))"
proof -
  obtain ys y where xs: "xs = ys @ [y]" using assms(1) by (cases xs rule: rev_exhaust) auto
  have "\<forall>x\<in>set ys. x \<le> y" using assms(2) by (simp add: xs sorted_append)
  then have "Max (set xs) = y" by (intro Max_eqI) (auto simp: xs)
  then show ?thesis by (simp add: xs)
qed

lemma sorted_rows_hd:
  "rows \<noteq> [] \<Longrightarrow> sorted (map yr rows) \<Longrightarrow> yr (hd rows) = Min (yr ` set rows)"
  using sorted_hd_Min [of "map yr rows"] by (simp add: hd_map)

lemma sorted_rows_last:
  "rows \<noteq> [] \<Longrightarrow> sorted (map yr rows) \<Longrightarrow> yr (last rows) = Max (yr ` set rows)"
  using sorted_last_Max [of "map yr rows"] by (simp add: last_map)

lemma years_player_merged:
  "yr ` set (player_merged pid batting_df teams_df)
     = b_yearid ` {b \<in> set batting_df. b_playerid b = pid}"
  by (simp add: player_merged_def set_sort_values years_merge_left)

lemma player_merged_empty_iff:
  "player_merged pid batting_df teams_df = [] \<longleftrightarrow> (\<forall>b\<in>set batting_df. b_playerid b \<noteq> pid)"
  by (auto simp: player_merged_def sort_values_empty_iff merge_left_empty_iff filter_empty_conv)

lemma sorted_player_merged: "sorted (map yr (player_merged pid batting_df teams_df))"
  by (simp add: player_merged_def sorted_sort_values)

lemma same_team_foldl:
  "\<forall>r\<in>set rows. snd r = Code c \<Longrightarrow> last_team st = Some (Code c) \<Longrightarrow>
     foldl step st rows = (if rows = [] then st else st\<lparr>year := Some (yr (last rows))\<rparr>)"
proof (induction rows arbitrary: st)
  case Nil
  then show ?case by simp
next
  case (Cons r rows)
  have s: "step st r = st\<lparr>year := Some (yr r)\<rparr>"
    using Cons.prems by (simp add: step_def Let_def)
  have "foldl step (step st r) rows
          = (if rows = [] then step st r else (step st r)\<lparr>year := Some (yr (last rows))\<rparr>)"
    using Cons.prems by (intro Cons.IH) (simp_all add: s)
  then show ?case by (simp add: s)
qed

lemma scan_same_team:
  assumes "rows \<noteq> []" "\<forall>r\<in>set rows. snd r = Code c"
  shows "scan rows = Inr [(Some (yr (hd rows)), yr (last rows), Code c)]"
proof -
  obtain r rs where rows: "rows = r # rs" using assms(1) by (cases rows) auto
  have s: "step init_state r =
      \<lparr>blocks = [], last_team = Some (Code c), start_year = Some (yr r), year = Some (yr r)\<rparr>"
    using assms(2) rows by (simp add: step_def init_state_def Let_def)
  have "foldl step (step init_state r) rs
          = (if rs = [] then step init_state r
             else (step init_state r)\<lparr>year := Some (yr (last rs))\<rparr>)"
    using assms(2) rows by (intro same_team_foldl) (simp_all add: s)
  then show ?thesis
    unfolding scan_def rows by (simp add: s finish_def)
qed

section \<open>Properties of the block extractor\<close>

lemmas run_defs = get_player_team_blocks_def name_matches_def player_merged_def
  sort_values_yearid_def merge_left_def scan_def step_def finish_def init_state_def
  person_def bat_def season_def Let_def

lemma get_blocks_found:
  assumes "filter (name_matches nf nl) people_df = p # ps"
  shows "get_player_team_blocks nf nl people_df batting_df teams_df
           = scan (player_merged (p_playerid p) batting_df teams_df)"
  using assms by (simp add: get_player_team_blocks_def Let_def)

text \<open>
  C1, as stated, fails: a player with rows in 2018 and 2020 for one franchise and none in
  2019 gets the single block 2018 to 2020, which contains the year 2019 although no row
  of the player has that year.
\<close>

theorem block_contains_year_without_row:
  "get_player_team_blocks ''John'' ''Doe'' [person ''doejo01'' ''John'' ''Doe'']
       [bat ''doejo01'' 2018 ''BOS'', bat ''doejo01'' 2020 ''BOS'']
       [season ''BOS'' 2018 ''BOS'', season ''BOS'' 2020 ''BOS'']
     = Inr [(Some 2018, 2020, Code ''BOS'')]
   \<and> 2019 \<in> block_years (Some 2018, 2020, Code ''BOS'')
   \<and> 2019 \<notin> set (map b_yearid [bat ''doejo01'' 2018 ''BOS'', bat ''doejo01'' 2020 ''BOS''])"
  by (simp add: run_defs block_years_def)

text \<open>
  C1, amended: for a player found in the people table, the extractor returns blocks whose
  start years are all set and ascending (not strictly), whose year ranges are pairwise
  disjoint, and whose union is the whole interval from the first to the last year of the
  player's batting rows (empty when the player has no row). So every year with a row lies
  in some block, and a year of a block lies between the player's first and last year; a
  year in between without a row is inside a block all the same.
\<close>

theorem blocks_tile_career_span:
  assumes "filter (name_matches nf nl) people_df = p # ps"
    and "Y = b_yearid ` {b \<in> set batting_df. b_playerid b = p_playerid p}"
  shows "\<exists>bs ss. get_player_team_blocks nf nl people_df batting_df teams_df = Inr bs
           \<and> map fst bs = map Some ss \<and> sorted ss
           \<and> (\<forall>i j. i < j \<and> j < length bs \<longrightarrow> block_years (bs ! i) \<inter> block_years (bs ! j) = {})
           \<and> Y \<subseteq> \<Union> (block_years ` set bs)
           \<and> \<Union> (block_years ` set bs) = (if Y = {} then {} else {Min Y .. Max Y})"
proof -
  let ?rows = "player_merged (p_playerid p) batting_df teams_df"
  have res: "get_player_team_blocks nf nl people_df batting_df teams_df = scan ?rows"
    using assms(1) by (rule get_blocks_found)
  have Y: "yr ` set ?rows = Y" by (simp add: years_player_merged assms(2))
  show ?thesis
  proof (cases "?rows = []")
    case True
    then have "Y = {}" using Y by simp
    moreover have "scan ?rows = Inr []" using True by (simp add: scan_Nil)
    ultimately show ?thesis using res by simp
  next
    case False
    have srt: "sorted (map yr ?rows)" by (rule sorted_player_merged)
    from scan_chain [OF False srt] obtain bs where bs: "scan ?rows = Inr bs"
      and ch: "chain (yr (hd ?rows)) bs (yr (last ?rows) + 1)" by blast
    have lo: "yr (hd ?rows) = Min Y" using sorted_rows_hd [OF False srt] Y by simp
    have hi: "yr (last ?rows) = Max Y" using sorted_rows_last [OF False srt] Y by simp
    have ne: "Y \<noteq> {}" using False Y by auto
    have fin: "finite Y" using Y by (metis finite_imageI finite_set)
    from chain_starts [OF ch] obtain ss where ss: "map fst bs = map Some ss" "sorted ss"
      by blast
    have un: "\<Union> (block_years ` set bs) = {Min Y .. Max Y}"
      using chain_years [OF ch] lo hi by auto
    have sub: "Y \<subseteq> {Min Y .. Max Y}" using fin by auto
    have dis: "\<forall>i j. i < j \<and> j < length bs \<longrightarrow> block_years (bs ! i) \<inter> block_years (bs ! j) = {}"
      using chain_disjoint [OF ch] by blast
    show ?thesis using res bs ss dis un sub ne by auto
  qed
qed

theorem blocks_tile_career_span_witness:
  "\<exists>bs ss. get_player_team_blocks ''John'' ''Doe''
               [person ''roejo01'' ''Jane'' ''Roe'', person ''doejo01'' ''John'' ''Doe'']
               [bat ''doejo01'' 2021 ''NYA'', bat ''doejo01'' 2018 ''BOS'',
                bat ''roejo01'' 2012 ''SEA'', bat ''doejo01'' 2020 ''BOS'']
               [season ''BOS'' 2018 ''BOS'', season ''BOS'' 2020 ''BOS'',
                season ''NYA'' 2021 ''NYY''] = Inr bs
           \<and> map fst bs = map Some ss \<and> sorted ss
           \<and> (\<forall>i j. i < j \<and> j < length bs \<longrightarrow> block_years (bs ! i) \<inter> block_years (bs ! j) = {})
           \<and> {2018, 2020, 2021} \<subseteq> \<Union> (block_years ` set bs)
           \<and> \<Union> (block_years ` set bs) = {2018 .. 2021}"
proof -
  let ?P = "[person ''roejo01'' ''Jane'' ''Roe'', person ''doejo01'' ''John'' ''Doe'']"
  let ?B = "[bat ''doejo01'' 2021 ''NYA'', bat ''doejo01'' 2018 ''BOS'',
             bat ''roejo01'' 2012 ''SEA'', bat ''doejo01'' 2020 ''BOS'']"
  have a: "filter (name_matches ''John'' ''Doe'') ?P = person ''doejo01'' ''John'' ''Doe'' # []"
    by (simp add: name_matches_def person_def)
  have b: "{2018, 2020, 2021}
             = b_yearid ` {b \<in> set ?B. b_playerid b = p_playerid (person ''doejo01'' ''John'' ''Doe'')}"
    unfolding set_filter [symmetric] by (simp add: person_def bat_def) auto
  have m: "Min {2018, 2020, 2021 :: int} = 2018" "Max {2018, 2020, 2021 :: int} = 2021"
    by simp_all
  show ?thesis using blocks_tile_career_span [OF a b] by (simp only: m) simp
qed

text \<open>
  C2: the rows 2018 and 2019 of a team that resolves to BOS and the row 2020 of a team
  that resolves to NYY give exactly the blocks (2018, 2019, BOS) and (2020, 2020, NYY),
  whatever the player's id and name and the two team ids. In general, an iteration that
  reads a row whose franchise differs from the open block's appends the open block, ended
  the year before the row's year, and opens a block at the row's year.
\<close>

theorem scenario_bos_then_nyy:
  "get_player_team_blocks nf nl [person pid nf nl]
       [bat pid 2018 teamA, bat pid 2019 teamA, bat pid 2020 teamB]
       [season teamA 2018 ''BOS'', season teamA 2019 ''BOS'', season teamB 2020 ''NYY'']
     = Inr [(Some 2018, 2019, Code ''BOS''), (Some 2020, 2020, Code ''NYY'')]
   \<and> (last_team st = Some lt \<and> py_ne team (Some lt) \<longrightarrow>
        step st (b, team)
          = st\<lparr>year := Some (b_yearid b),
                blocks := blocks st @ [(start_year st, b_yearid b - 1, lt)],
                last_team := Some team, start_year := Some (b_yearid b)\<rparr>)"
  by (simp add: run_defs)

theorem scenario_bos_then_nyy_witness:
  "step \<lparr>blocks = [], last_team = Some (Code ''BOS''), start_year = Some 2018, year = Some 2019\<rparr>
        (bat ''doejo01'' 2020 ''NYA'', Code ''NYY'')
     = \<lparr>blocks = [(Some 2018, 2019, Code ''BOS'')], last_team = Some (Code ''NYY''),
        start_year = Some 2020, year = Some 2020\<rparr>"
  using scenario_bos_then_nyy [of _ _ _ _ _
      "\<lparr>blocks = [], last_team = Some (Code ''BOS''), start_year = Some 2018, year = Some 2019\<rparr>"
      "Code ''BOS''" "Code ''NYY''" "bat ''doejo01'' 2020 ''NYA''"]
  by (simp add: bat_def)

text \<open>
  C3: when the player has at least one batting row and every row resolves to the one
  franchise code \<open>c\<close>, the extractor returns exactly one block, from the least to the
  greatest year of the rows, for \<open>c\<close>. Years without a row in between do not split it.
\<close>

theorem single_franchise_single_block:
  assumes "filter (name_matches nf nl) people_df = p # ps"
    and "merged = merge_left (filter (\<lambda>b. b_playerid b = p_playerid p) batting_df) teams_df"
    and "merged \<noteq> []"
    and "\<forall>r\<in>set merged. snd r = Code c"
  shows "get_player_team_blocks nf nl people_df batting_df teams_df
           = Inr [(Some (Min (yr ` set merged)), Max (yr ` set merged), Code c)]"
proof -
  let ?rows = "player_merged (p_playerid p) batting_df teams_df"
  have rows: "?rows = sort_values_yearid merged"
    by (simp add: player_merged_def assms(2))
  have ne: "?rows \<noteq> []" using assms(3) by (simp add: rows sort_values_empty_iff)
  have all: "\<forall>r\<in>set ?rows. snd r = Code c" using assms(4) by (simp add: rows set_sort_values)
  have srt: "sorted (map yr ?rows)" by (rule sorted_player_merged)
  have "scan ?rows = Inr [(Some (yr (hd ?rows)), yr (last ?rows), Code c)]"
    using ne all by (rule scan_same_team)
  moreover have "yr (hd ?rows) = Min (yr ` set merged)"
    using sorted_rows_hd [OF ne srt] by (simp add: rows set_sort_values)
  moreover have "yr (last ?rows) = Max (yr ` set merged)"
    using sorted_rows_last [OF ne srt] by (simp add: rows set_sort_values)
  ultimately show ?thesis using get_blocks_found [OF assms(1)] by simp
qed

theorem single_franchise_single_block_witness:
  "get_player_team_blocks ''John'' ''Doe'' [person ''doejo01'' ''John'' ''Doe'']
       [bat ''doejo01'' 2019 ''SEA'', bat ''doejo01'' 2015 ''SEA'', bat ''doejo01'' 2016 ''SEA'']
       [season ''SEA'' 2015 ''SEA'', season ''SEA'' 2016 ''SEA'', season ''SEA'' 2019 ''SEA'']
     = Inr [(Some 2015, 2019, Code ''SEA'')]"
proof -
  let ?P = "[person ''doejo01'' ''John'' ''Doe'']"
  let ?B = "[bat ''doejo01'' 2019 ''SEA'', bat ''doejo01'' 2015 ''SEA'', bat ''doejo01'' 2016 ''SEA'']"
  let ?T = "[season ''SEA'' 2015 ''SEA'', season ''SEA'' 2016 ''SEA'', season ''SEA'' 2019 ''SEA'']"
  let ?M = "[(bat ''doejo01'' 2019 ''SEA'', Code ''SEA''), (bat ''doejo01'' 2015 ''SEA'', Code ''SEA''),
             (bat ''doejo01'' 2016 ''SEA'', Code ''SEA'')]"
  have a: "filter (name_matches ''John'' ''Doe'') ?P = person ''doejo01'' ''John'' ''Doe'' # []"
    by (simp add: name_matches_def person_def)
  have b: "?M = merge_left
      (filter (\<lambda>b. b_playerid b = p_playerid (person ''doejo01'' ''John'' ''Doe'')) ?B) ?T"
    by (simp add: merge_left_def person_def bat_def season_def)
  have c: "?M \<noteq> []" by simp
  have d: "\<forall>r\<in>set ?M. snd r = Code ''SEA''" by simp
  have m: "Min (yr ` set ?M) = 2015" "Max (yr ` set ?M) = 2019" by (simp_all add: bat_def)
  show ?thesis using single_franchise_single_block [OF a b c d] by (simp only: m)
qed

text \<open>
  C6: two rows of consecutive years, neither with a season row for its (team, year), both
  get NaN. The comparison \<^verbatim>\<open>team != last_team\<close> is true of NaN against NaN, so the second
  row closes the block of the first: the result is two blocks of one year each, not one
  block 2018 to 2019.
\<close>

theorem consecutive_null_years_are_split:
  "get_player_team_blocks ''John'' ''Doe'' [person ''doejo01'' ''John'' ''Doe'']
       [bat ''doejo01'' 2018 ''XXX'', bat ''doejo01'' 2019 ''XXX''] []
     = Inr [(Some 2018, 2018, NaN), (Some 2019, 2019, NaN)]"
  by (simp add: run_defs)

text \<open>
  C8: the extractor returns a list of blocks on every input, never an error, and the list
  is empty exactly when no people row has the name or no batting row has the id of the
  first people row with the name.
\<close>

theorem extractor_total:
  "\<exists>bs. get_player_team_blocks nf nl people_df batting_df teams_df = Inr bs
     \<and> (bs = [] \<longleftrightarrow>
          filter (name_matches nf nl) people_df = []
          \<or> (\<forall>b\<in>set batting_df.
                b_playerid b \<noteq> p_playerid (hd (filter (name_matches nf nl) people_df))))"
proof (cases "filter (name_matches nf nl) people_df")
  case Nil
  then show ?thesis by (simp add: get_player_team_blocks_def)
next
  case (Cons p ps)
  let ?rows = "player_merged (p_playerid p) batting_df teams_df"
  have res: "get_player_team_blocks nf nl people_df batting_df teams_df = scan ?rows"
    using Cons by (rule get_blocks_found)
  show ?thesis
  proof (cases "?rows = []")
    case True
    then have "scan ?rows = Inr []" by (simp add: scan_Nil)
    moreover have "\<forall>b\<in>set batting_df. b_playerid b \<noteq> p_playerid p"
      using True by (simp add: player_merged_empty_iff)
    ultimately show ?thesis using res Cons by simp
  next
    case False
    from scan_chain [OF False sorted_player_merged] obtain bs
      where "scan ?rows = Inr bs" "bs \<noteq> []" by blast
    moreover have "\<not> (\<forall>b\<in>set batting_df. b_playerid b \<noteq> p_playerid p)"
      using False by (simp add: player_merged_empty_iff)
    ultimately show ?thesis using res Cons by simp
  qed
qed

theorem extractor_total_witness:
  "get_player_team_blocks ''Jane'' ''Roe'' [person ''doejo01'' ''John'' ''Doe'']
       [bat ''doejo01'' 2018 ''BOS''] [season ''BOS'' 2018 ''BOS''] = Inr []
   \<and> get_player_team_blocks ''John'' ''Doe'' [person ''doejo01'' ''John'' ''Doe'']
       [bat ''roeja01'' 2018 ''BOS''] [season ''BOS'' 2018 ''BOS''] = Inr []"
proof -
  have a: "filter (name_matches ''Jane'' ''Roe'') [person ''doejo01'' ''John'' ''Doe''] = []"
    by (simp add: name_matches_def person_def)
  have b: "\<forall>b\<in>set [bat ''roeja01'' 2018 ''BOS''].
             b_playerid b \<noteq> p_playerid (hd (filter (name_matches ''John'' ''Doe'')
               [person ''doejo01'' ''John'' ''Doe'']))"
    by (simp add: name_matches_def person_def bat_def)
  have "get_player_team_blocks ''Jane'' ''Roe'' [person ''doejo01'' ''John'' ''Doe'']
       [bat ''doejo01'' 2018 ''BOS''] [season ''BOS'' 2018 ''BOS''] = Inr []"
    using extractor_total [of "''Jane''" "''Roe''" "[person ''doejo01'' ''John'' ''Doe'']"
        "[bat ''doejo01'' 2018 ''BOS'']" "[season ''BOS'' 2018 ''BOS'']"] a
    by auto
  moreover have "get_player_team_blocks ''John'' ''Doe'' [person ''doejo01'' ''John'' ''Doe'']
       [bat ''roeja01'' 2018 ''BOS''] [season ''BOS'' 2018 ''BOS''] = Inr []"
    using extractor_total [of "''John''" "''Doe''" "[person ''doejo01'' ''John'' ''Doe'']"
        "[bat ''roeja01'' 2018 ''BOS'']" "[season ''BOS'' 2018 ''BOS'']"] b
    by auto
  ultimately show ?thesis by simp
qed

text \<open>
  C10: the player is looked up by equality of first and last name. The id of the first
  people row with the name decides the result: the rows before it (none of which has the
  name) and all rows after it, with the name or not, make no difference, and the blocks
  are those of the batting rows with that first row's id.
\<close>

theorem first_name_match_decides:
  assumes "\<forall>q\<in>set before. \<not> name_matches nf nl q"
    and "name_matches nf nl p"
  shows "get_player_team_blocks nf nl (before @ p # rest) batting_df teams_df
           = scan (player_merged (p_playerid p) batting_df teams_df)
       \<and> get_player_team_blocks nf nl (before @ p # rest) batting_df teams_df
           = get_player_team_blocks nf nl [p] batting_df teams_df"
proof -
  have "filter (name_matches nf nl) before = []" using assms(1) by (simp add: filter_empty_conv)
  then have "filter (name_matches nf nl) (before @ p # rest)
               = p # filter (name_matches nf nl) rest"
    using assms(2) by simp
  from get_blocks_found [OF this] show ?thesis
    using assms(2) by (simp add: get_player_team_blocks_def)
qed

theorem first_name_match_decides_witness:
  "get_player_team_blocks ''John'' ''Doe''
       [person ''roeja01'' ''Jane'' ''Roe'', person ''doejo01'' ''John'' ''Doe'',
        person ''doejo02'' ''John'' ''Doe'']
       [bat ''doejo02'' 2001 ''NYA'', bat ''doejo01'' 2018 ''BOS'', bat ''doejo02'' 2002 ''NYA'']
       [season ''BOS'' 2018 ''BOS'', season ''NYA'' 2001 ''NYY'', season ''NYA'' 2002 ''NYY'']
     = Inr [(Some 2018, 2018, Code ''BOS'')]"
proof -
  have a: "\<forall>q\<in>set [person ''roeja01'' ''Jane'' ''Roe'']. \<not> name_matches ''John'' ''Doe'' q"
    by (simp add: name_matches_def person_def)
  have b: "name_matches ''John'' ''Doe'' (person ''doejo01'' ''John'' ''Doe'')"
    by (simp add: name_matches_def person_def)
  have c: "scan (player_merged (p_playerid (person ''doejo01'' ''John'' ''Doe''))
       [bat ''doejo02'' 2001 ''NYA'', bat ''doejo01'' 2018 ''BOS'', bat ''doejo02'' 2002 ''NYA'']
       [season ''BOS'' 2018 ''BOS'', season ''NYA'' 2001 ''NYY'', season ''NYA'' 2002 ''NYY''])
     = Inr [(Some 2018, 2018, Code ''BOS'')]"
    by (simp add: run_defs)
  show ?thesis
    using first_name_match_decides [OF a b, of "[person ''doejo02'' ''John'' ''Doe'']"
        "[bat ''doejo02'' 2001 ''NYA'', bat ''doejo01'' 2018 ''BOS'', bat ''doejo02'' 2002 ''NYA'']"
        "[season ''BOS'' 2018 ''BOS'', season ''NYA'' 2001 ''NYY'', season ''NYA'' 2002 ''NYY'']"]
    by (simp only: c append_Cons append_Nil)
qed

section \<open>Properties of the resolver and of the tables\<close>

lemma distinct_official_names: "distinct (map fst OFFICIAL_TEAM_NAMES)"
  by code_simp

lemma official_names_nonempty: "map fst OFFICIAL_TEAM_NAMES \<noteq> []"
  by (simp add: OFFICIAL_TEAM_NAMES_def)

lemma pick_better_loop:
  "\<exists>c k. foldl (pick_better f) (Some (c0, f c0, k0)) (enumerate n cs) = Some (c, f c, k)
          \<and> c \<in> insert c0 (set cs) \<and> f c0 \<le> f c \<and> (\<forall>x\<in>set cs. f x \<le> f c)"
proof (induction cs arbitrary: c0 k0 n)
  case Nil
  then show ?case by simp
next
  case (Cons a cs)
  show ?case
  proof (cases "f a > f c0")
    case True
    then have s: "pick_better f (Some (c0, f c0, k0)) (n, a) = Some (a, f a, n)"
      by (simp add: pick_better_def)
    from Cons.IH [of a n "Suc n"] obtain c k where
      "foldl (pick_better f) (Some (a, f a, n)) (enumerate (Suc n) cs) = Some (c, f c, k)"
      "c \<in> insert a (set cs)" "f a \<le> f c" "\<forall>x\<in>set cs. f x \<le> f c" by blast
    then show ?thesis using True s by auto
  next
    case False
    then have s: "pick_better f (Some (c0, f c0, k0)) (n, a) = Some (c0, f c0, k0)"
      by (simp add: pick_better_def)
    from Cons.IH [of c0 k0 "Suc n"] obtain c k where
      "foldl (pick_better f) (Some (c0, f c0, k0)) (enumerate (Suc n) cs) = Some (c, f c, k)"
      "c \<in> insert c0 (set cs)" "f c0 \<le> f c" "\<forall>x\<in>set cs. f x \<le> f c" by blast
    then show ?thesis using False s by auto
  qed
qed

lemma extractOne_best:
  assumes "cs \<noteq> []"
  shows "\<exists>c k. extractOne scorer q cs = Some (c, scorer q c, k) \<and> c \<in> set cs
            \<and> (\<forall>x\<in>set cs. scorer q x \<le> scorer q c)"
proof -
  obtain a as where cs: "cs = a # as" using assms by (cases cs) auto
  have s: "pick_better (scorer q) None (0, a) = Some (a, scorer q a, 0)"
    by (simp add: pick_better_def)
  from pick_better_loop [of "scorer q" a 0 "Suc 0" as] obtain c k where
    "foldl (pick_better (scorer q)) (Some (a, scorer q a, 0)) (enumerate (Suc 0) as)
       = Some (c, scorer q c, k)"
    "c \<in> insert a (set as)" "scorer q a \<le> scorer q c" "\<forall>x\<in>set as. scorer q x \<le> scorer q c"
    by blast
  then show ?thesis unfolding extractOne_def cs using s by auto
qed

lemma extractOne_official:
  "\<exists>c k code. extractOne scorer q (map fst OFFICIAL_TEAM_NAMES) = Some (c, scorer q c, k)
      \<and> map_of OFFICIAL_TEAM_NAMES c = Some code
      \<and> (\<forall>x\<in>set (map fst OFFICIAL_TEAM_NAMES). scorer q x \<le> scorer q c)
      \<and> best_score scorer q = scorer q c"
proof -
  from extractOne_best [OF official_names_nonempty, of scorer q] obtain c k where
    e: "extractOne scorer q (map fst OFFICIAL_TEAM_NAMES) = Some (c, scorer q c, k)"
    and c: "c \<in> set (map fst OFFICIAL_TEAM_NAMES)"
    and le: "\<forall>x\<in>set (map fst OFFICIAL_TEAM_NAMES). scorer q x \<le> scorer q c" by blast
  from c obtain code where "map_of OFFICIAL_TEAM_NAMES c = Some code"
    by (metis domD dom_map_of_conv_image_fst set_map)
  moreover have "Max (scorer q ` set (map fst OFFICIAL_TEAM_NAMES)) = scorer q c"
    using c le by (intro Max_eqI) auto
  ultimately show ?thesis using e le by (auto simp: best_score_def)
qed

text \<open>
  C5: the resolver never raises; it returns no match exactly when the best score of the
  query over the canonical names is below 70; and when one entry scores at least 70 and
  strictly above every other entry, it returns that entry's code with that entry's name.
\<close>

theorem resolver_threshold:
  "(\<exists>r. get_franchise_code_from_input scorer q = Inr r)
   \<and> (get_franchise_code_from_input scorer q = Inr None \<longleftrightarrow> best_score scorer q < 70)
   \<and> ((name, code) \<in> set OFFICIAL_TEAM_NAMES \<and> scorer q name \<ge> 70
        \<and> (\<forall>n\<in>set (map fst OFFICIAL_TEAM_NAMES). n \<noteq> name \<longrightarrow> scorer q n < scorer q name)
      \<longrightarrow> get_franchise_code_from_input scorer q = Inr (Some (code, name)))"
proof -
  from extractOne_official [of scorer q] obtain c k cd where
    e: "extractOne scorer q (map fst OFFICIAL_TEAM_NAMES) = Some (c, scorer q c, k)"
    and m: "map_of OFFICIAL_TEAM_NAMES c = Some cd"
    and le: "\<forall>x\<in>set (map fst OFFICIAL_TEAM_NAMES). scorer q x \<le> scorer q c"
    and b: "best_score scorer q = scorer q c" by blast
  have res: "get_franchise_code_from_input scorer q
               = (if scorer q c \<ge> 70 then Inr (Some (cd, c)) else Inr None)"
    by (simp add: get_franchise_code_from_input_def e m)
  have 1: "\<exists>r. get_franchise_code_from_input scorer q = Inr r" by (simp add: res)
  have 2: "get_franchise_code_from_input scorer q = Inr None \<longleftrightarrow> best_score scorer q < 70"
    by (auto simp: res b)
  have 3: "get_franchise_code_from_input scorer q = Inr (Some (code, name))"
    if h: "(name, code) \<in> set OFFICIAL_TEAM_NAMES" "scorer q name \<ge> 70"
      "\<forall>n\<in>set (map fst OFFICIAL_TEAM_NAMES). n \<noteq> name \<longrightarrow> scorer q n < scorer q name"
  proof -
    have mem: "name \<in> set (map fst OFFICIAL_TEAM_NAMES)" using h(1) by force
    have cmem: "c \<in> set (map fst OFFICIAL_TEAM_NAMES)"
      using m by (metis map_of_SomeD fst_conv image_eqI set_map)
    have "scorer q name \<le> scorer q c" using le mem by blast
    then have "c = name" using h(3) cmem by fastforce
    moreover have "map_of OFFICIAL_TEAM_NAMES name = Some code"
      using h(1) distinct_official_names by (rule_tac map_of_is_SomeI)
    ultimately show ?thesis using res m h(2) by simp
  qed
  show ?thesis using 1 2 3 by blast
qed

theorem resolver_threshold_witness:
  "get_franchise_code_from_input (\<lambda>q c. if c = q then 100 else 0) ''Boston Red Sox''
     = Inr (Some (''BOS'', ''Boston Red Sox''))"
proof -
  have a: "(''Boston Red Sox'', ''BOS'') \<in> set OFFICIAL_TEAM_NAMES"
    by (simp add: OFFICIAL_TEAM_NAMES_def)
  show ?thesis
    using resolver_threshold [of "\<lambda>q c. if c = q then 100 else 0" "''Boston Red Sox''"
        "''Boston Red Sox''" "''BOS''"] a
    by simp
qed

text \<open>
  C7: the directory returns the codes ANA (Los Angeles Angels) and FLA (Miami Marlins),
  and the palette, which has 30 entries, has neither: it has LAA and MIA in their place.
  These two are the only directory codes without a colour, so the resolver's codes ANA and
  FLA are drawn in the fallback gray. Every directory code has a display name.
\<close>

theorem palette_misses_two_directory_codes:
  "length TEAM_COLORS = 30
   \<and> filter (\<lambda>c. map_of TEAM_COLORS c = None) (map snd OFFICIAL_TEAM_NAMES) = [''ANA'', ''FLA'']
   \<and> color_of (Code ''ANA'') = ''#888888'' \<and> color_of (Code ''FLA'') = ''#888888''
   \<and> filter (\<lambda>c. TEAM_NAMES c = None) (map snd OFFICIAL_TEAM_NAMES) = []
   \<and> get_franchise_code_from_input (\<lambda>q c. if c = q then 100 else 0) ''Los Angeles Angels''
       = Inr (Some (''ANA'', ''Los Angeles Angels''))"
proof -
  have "length TEAM_COLORS = 30" by code_simp
  moreover have "filter (\<lambda>c. map_of TEAM_COLORS c = None) (map snd OFFICIAL_TEAM_NAMES)
                   = [''ANA'', ''FLA'']" by code_simp
  moreover have "color_of (Code ''ANA'') = ''#888888''" by code_simp
  moreover have "color_of (Code ''FLA'') = ''#888888''" by code_simp
  moreover have "filter (\<lambda>c. TEAM_NAMES c = None) (map snd OFFICIAL_TEAM_NAMES) = []"
    by code_simp
  moreover have "get_franchise_code_from_input (\<lambda>q c. if c = q then 100 else 0)
      ''Los Angeles Angels'' = Inr (Some (''ANA'', ''Los Angeles Angels''))" by code_simp
  ultimately show ?thesis by (simp only: simp_thms)
qed

section \<open>Properties of the roster filter\<close>

lemma merge_left_filter:
  "filter (\<lambda>r. P (fst r)) (merge_left bs ts) = merge_left (filter P bs) ts"
proof (induction bs)
  case Nil
  then show ?case by (simp add: merge_left_Nil)
next
  case (Cons b bs)
  let ?ms = "filter (\<lambda>t. t_teamid t = b_teamid b \<and> t_yearid t = b_yearid b) ts"
  let ?chunk = "if ?ms = [] then [(b, NaN)] else map (\<lambda>t. (b, t_franchid t)) ?ms"
  have "filter (\<lambda>r. P (fst r)) ?chunk = (if P b then ?chunk else [])"
    by (simp add: filter_map comp_def)
  then show ?case using Cons.IH by (simp add: merge_left_Cons Let_def)
qed

lemma set_merge_left_Union:
  "set (merge_left bs ts) = (\<Union>b\<in>set bs. set (merge_left [b] ts))"
  by (simp add: merge_left_def)

lemma codes_merge_left_cong:
  "set xs = set ys \<Longrightarrow> snd ` set (merge_left xs ts) = snd ` set (merge_left ys ts)"
  by (simp add: set_merge_left_Union [of xs] set_merge_left_Union [of ys])

lemma row_key_set_merge_left:
  "row_key ` set (merge_left bs ts) = (\<lambda>b. (b_playerid b, b_yearid b)) ` set bs"
proof -
  have "row_key ` set (merge_left bs ts)
          = (\<lambda>b. (b_playerid b, b_yearid b)) ` (fst ` set (merge_left bs ts))"
    by (simp add: image_image row_key_def)
  then show ?thesis by (simp add: fst_set_merge_left)
qed

lemma set_unique: "set (unique xs) = set xs"
  by (simp add: unique_def)

lemma distinct_unique: "distinct (unique xs)"
  by (simp add: unique_def)

lemma only_this_team_unique: "only_this_team c (unique xs) \<longleftrightarrow> set xs = {Code c}"
proof
  assume "only_this_team c (unique xs)"
  then have len: "length (unique xs) = 1" and eq: "py_eq (unique xs ! 0) c"
    by (auto simp: only_this_team_def split: if_splits)
  from len obtain a where a: "unique xs = [a]"
    by (cases "unique xs") auto
  have "a = Code c" using eq a by (cases a) auto
  moreover have "set xs = {a}" using a set_unique [of xs] by simp
  ultimately show "set xs = {Code c}" by simp
next
  assume s: "set xs = {Code c}"
  have "card (set (unique xs)) = length (unique xs)"
    using distinct_unique by (rule distinct_card)
  then have "length (unique xs) = 1" using s by (simp add: set_unique)
  then obtain a where a: "unique xs = [a]"
    by (cases "unique xs") auto
  then have "a = Code c" using s set_unique [of xs] by auto
  then show "only_this_team c (unique xs)" using a by (simp add: only_this_team_def)
qed

lemma set_merge_inner:
  "set (merge_inner bs ks) = {b \<in> set bs. (b_playerid b, b_yearid b) \<in> set ks}"
  by (auto simp: merge_inner_def)

lemma set_latest_years:
  "(p, y) \<in> set (latest_years ab) \<longleftrightarrow>
     p \<in> b_playerid ` set ab
     \<and> y = Max (set (map b_yearid (filter (\<lambda>b. b_playerid b = p) ab)))"
  by (auto simp: latest_years_def)

lemma active_rows:
  assumes "is_active people pid"
  shows "filter (\<lambda>b. b_playerid b = pid) (active_batting to_year people batting)
           = filter (\<lambda>b. b_playerid b = pid) batting"
proof -
  from assms obtain p where p: "p \<in> set people" "p_playerid p = pid" "p_finalgame p = None"
    unfolding is_active_def by blast
  then have "p \<in> set (active_players_df to_year people)"
    by (simp add: active_players_df_def finalyear_def)
  then have "pid \<in> set (map p_playerid (active_players_df to_year people))"
    using p(2) by force
  then show ?thesis
    unfolding active_batting_def filter_filter by (intro filter_cong) auto
qed

lemma set_teams_per_player_year:
  "set (teams_per_player_year lb)
     = (\<lambda>k. (k, unique (map snd (filter (\<lambda>r. row_key r = k) lb)))) ` row_key ` set lb"
  by (simp add: teams_per_player_year_def)

lemma only_team_players_iff:
  "pid \<in> set (only_team_players to_year people batting teams c) \<longleftrightarrow>
     (\<exists>k\<in>row_key ` set (latest_batting to_year people batting teams). fst k = pid
        \<and> snd ` set (filter (\<lambda>r. row_key r = k) (latest_batting to_year people batting teams))
            = {Code c})"
proof -
  let ?lb = "latest_batting to_year people batting teams"
  have "pid \<in> set (only_team_players to_year people batting teams c) \<longleftrightarrow>
          (\<exists>g\<in>set (teams_per_player_year ?lb). only_this_team c (snd g) \<and> fst (fst g) = pid)"
    by (auto simp: only_team_players_def)
  also have "\<dots> \<longleftrightarrow> (\<exists>k\<in>row_key ` set ?lb.
          only_this_team c (unique (map snd (filter (\<lambda>r. row_key r = k) ?lb))) \<and> fst k = pid)"
    unfolding set_teams_per_player_year by simp
  also have "\<dots> \<longleftrightarrow> (\<exists>k\<in>row_key ` set ?lb. fst k = pid
          \<and> snd ` set (filter (\<lambda>r. row_key r = k) ?lb) = {Code c})"
    unfolding only_this_team_unique by auto
  finally show ?thesis .
qed

lemma roster_filter_core:
  assumes act: "is_active people pid"
  shows "pid \<in> set (only_team_players to_year people batting teams c)
           \<longleftrightarrow> latest_season_codes pid batting teams = {Code c}"
proof -
  let ?ab = "active_batting to_year people batting"
  let ?inner = "merge_inner ?ab (latest_years ?ab)"
  let ?lb = "latest_batting to_year people batting teams"
  let ?rows = "filter (\<lambda>b. b_playerid b = pid) batting"
  let ?M = "Max (set (map b_yearid ?rows))"
  let ?key = "\<lambda>b. (b_playerid b, b_yearid b)"
  have lb: "?lb = merge_left ?inner teams" by (simp add: latest_batting_def Let_def)
  have rows: "filter (\<lambda>b. b_playerid b = pid) ?ab = ?rows" using act by (rule active_rows)
  have mem: "b \<in> set ?ab \<and> b_playerid b = pid \<longleftrightarrow> b \<in> set ?rows" for b
    using arg_cong [OF rows, of set] by auto
  have inner: "b \<in> set ?inner \<and> b_playerid b = pid \<longleftrightarrow> b \<in> set ?rows \<and> b_yearid b = ?M" for b
  proof -
    have "b \<in> set ?inner \<and> b_playerid b = pid \<longleftrightarrow>
            (b \<in> set ?ab \<and> b_playerid b = pid)
            \<and> b_yearid b = Max (set (map b_yearid (filter (\<lambda>x. b_playerid x = pid) ?ab)))"
      by (auto simp: set_merge_inner set_latest_years)
    then show ?thesis unfolding rows mem .
  qed
  have keys: "row_key ` set ?lb = ?key ` set ?inner"
    unfolding lb by (rule row_key_set_merge_left)
  have group: "filter (\<lambda>r. row_key r = k) ?lb = merge_left (filter (\<lambda>b. ?key b = k) ?inner) teams"
    for k
    unfolding lb row_key_def by (rule merge_left_filter)
  show ?thesis
  proof (cases "?rows = []")
    case True
    have "\<not> (\<exists>k\<in>row_key ` set ?lb. fst k = pid)"
    proof
      assume "\<exists>k\<in>row_key ` set ?lb. fst k = pid"
      then obtain b where "b \<in> set ?inner" "b_playerid b = pid" unfolding keys by auto
      then have "b \<in> set ?rows" using inner by blast
      then show False using True by simp
    qed
    then have "pid \<notin> set (only_team_players to_year people batting teams c)"
      unfolding only_team_players_iff by blast
    moreover have "latest_season_codes pid batting teams = {}"
      using True by (simp add: latest_season_codes_def)
    ultimately show ?thesis by simp
  next
    case False
    then have "set (map b_yearid ?rows) \<noteq> {}" by (simp del: set_filter set_map)
    then have "?M \<in> set (map b_yearid ?rows)" by (intro Max_in) (rule finite_set)
    then obtain b0 where b0: "b0 \<in> set ?rows" "b_yearid b0 = ?M" by auto
    then have b0i: "b0 \<in> set ?inner" "b_playerid b0 = pid" using inner by blast+
    have k0: "(pid, ?M) \<in> row_key ` set ?lb"
      unfolding keys using b0i b0(2) by force
    have only: "k = (pid, ?M)" if "k \<in> row_key ` set ?lb" "fst k = pid" for k
    proof -
      from that obtain b where b: "b \<in> set ?inner" "k = ?key b" unfolding keys by auto
      then have "b_playerid b = pid" using that(2) by simp
      then have "b_yearid b = ?M" using b(1) inner by blast
      then show ?thesis using b(2) \<open>b_playerid b = pid\<close> by simp
    qed
    have "set (filter (\<lambda>b. ?key b = (pid, ?M)) ?inner) = set (filter (\<lambda>b. b_yearid b = ?M) ?rows)"
      using inner by auto
    then have codes: "snd ` set (filter (\<lambda>r. row_key r = (pid, ?M)) ?lb)
        = snd ` set (merge_left (filter (\<lambda>b. b_yearid b = ?M) ?rows) teams)"
      unfolding group by (rule codes_merge_left_cong)
    have "pid \<in> set (only_team_players to_year people batting teams c) \<longleftrightarrow>
            snd ` set (filter (\<lambda>r. row_key r = (pid, ?M)) ?lb) = {Code c}"
      unfolding only_team_players_iff using k0 only by (metis fst_conv)
    also have "\<dots> \<longleftrightarrow> latest_season_codes pid batting teams = {Code c}"
      unfolding codes using False by (simp add: latest_season_codes_def Let_def)
    finally show ?thesis .
  qed
qed

text \<open>
  C4: for a player with no recorded final game, the id is in the result of the roster
  filter for a target code exactly when the set of franchise values joined to the
  player's rows of their most recent season is the singleton of the target code. The
  null of a row without a season row counts as a value of that set. When the set has two
  distinct values, the player is in the result for no target code.
\<close>

theorem roster_filter_exclusive:
  assumes "is_active people pid"
  shows "(pid \<in> set (only_team_players to_year people batting teams c)
            \<longleftrightarrow> latest_season_codes pid batting teams = {Code c})
       \<and> (\<forall>a b. a \<in> latest_season_codes pid batting teams
              \<and> b \<in> latest_season_codes pid batting teams \<and> a \<noteq> b
            \<longrightarrow> (\<forall>c'. pid \<notin> set (only_team_players to_year people batting teams c')))"
  using roster_filter_core [OF assms] by auto

theorem roster_filter_exclusive_witness:
  "is_active [person ''a'' ''Ann'' ''Abel'', person ''b'' ''Bob'' ''Baker''] ''a''
   \<and> is_active [person ''a'' ''Ann'' ''Abel'', person ''b'' ''Bob'' ''Baker''] ''b''
   \<and> ''a'' \<in> set (only_team_players (\<lambda>s. Some 2020)
          [person ''a'' ''Ann'' ''Abel'', person ''b'' ''Bob'' ''Baker'']
          [bat ''a'' 2022 ''NYA'', bat ''a'' 2023 ''BOS'', bat ''b'' 2023 ''BOS'', bat ''b'' 2023 ''NYA'']
          [season ''NYA'' 2022 ''NYY'', season ''BOS'' 2023 ''BOS'', season ''NYA'' 2023 ''NYY'']
          ''BOS'')
   \<and> ''b'' \<notin> set (only_team_players (\<lambda>s. Some 2020)
          [person ''a'' ''Ann'' ''Abel'', person ''b'' ''Bob'' ''Baker'']
          [bat ''a'' 2022 ''NYA'', bat ''a'' 2023 ''BOS'', bat ''b'' 2023 ''BOS'', bat ''b'' 2023 ''NYA'']
          [season ''NYA'' 2022 ''NYY'', season ''BOS'' 2023 ''BOS'', season ''NYA'' 2023 ''NYY'']
          ''BOS'')"
proof -
  let ?P = "[person ''a'' ''Ann'' ''Abel'', person ''b'' ''Bob'' ''Baker'']"
  let ?B = "[bat ''a'' 2022 ''NYA'', bat ''a'' 2023 ''BOS'', bat ''b'' 2023 ''BOS'',
             bat ''b'' 2023 ''NYA'']"
  let ?T = "[season ''NYA'' 2022 ''NYY'', season ''BOS'' 2023 ''BOS'', season ''NYA'' 2023 ''NYY'']"
  have a: "is_active ?P ''a''" by (simp add: is_active_def person_def)
  have b: "is_active ?P ''b''" by (simp add: is_active_def person_def)
  have ca: "latest_season_codes ''a'' ?B ?T = {Code ''BOS''}"
    by (simp add: latest_season_codes_def merge_left_def bat_def season_def)
  have cb: "latest_season_codes ''b'' ?B ?T = {Code ''BOS'', Code ''NYY''}"
    by (simp add: latest_season_codes_def merge_left_def bat_def season_def)
  have "''a'' \<in> set (only_team_players (\<lambda>s. Some 2020) ?P ?B ?T ''BOS'')"
    using roster_filter_exclusive [OF a, of "\<lambda>s. Some 2020" ?B ?T "''BOS''"] ca by simp
  moreover have "''b'' \<notin> set (only_team_players (\<lambda>s. Some 2020) ?P ?B ?T ''BOS'')"
    using roster_filter_exclusive [OF b, of "\<lambda>s. Some 2020" ?B ?T "''BOS''"] cb by auto
  ultimately show ?thesis using a b by simp
qed

end
